theory Spec2Isabelle
  imports Main "HOL-Library.Word"
begin

section \<open>Values of the package\<close>

text \<open>
  The package \<open>pipedream\<close> streams an \<open>io.Reader\<close> to S3 as a multipart upload and reports
  what happens as events on a channel. Everything outside the package (the reader, the S3
  service reached through \<open>m.svc\<close>, \<open>http.DetectContentType\<close>) is a parameter of the model.

  Go's \<open>int\<close> has 32 or 64 bits, as the platform has it (the releases include builds
  for 386). A value of type \<open>int\<close> is an \<open>int\<close> here, and the additions \<open>run\<close> makes on
  its counters wrap around at the width of the platform (\<open>go_int\<close>).
\<close>

datatype word_size = Bits32 | Bits64

fun int_bits :: "word_size \<Rightarrow> nat" where
  "int_bits Bits32 = 32"
| "int_bits Bits64 = 64"

text \<open>The value of type \<open>int\<close> that an addition with the exact result \<open>x\<close> leaves.\<close>

definition go_int :: "word_size \<Rightarrow> int \<Rightarrow> int" where
  "go_int s x = (x + 2 ^ (int_bits s - 1)) mod 2 ^ int_bits s - 2 ^ (int_bits s - 1)"

type_synonym byte = "8 word"

text \<open>
  An \<open>error\<close> value. \<open>io.EOF\<close> is a sentinel compared by identity (\<open>err == io.EOF\<close>); every
  other error matters to the package only through its message.
\<close>

datatype go_error = IoEOF | GoError string

fun error_string :: "go_error \<Rightarrow> string" where
  "error_string IoEOF = ''EOF''"
| "error_string (GoError s) = s"

definition errors_New :: "string \<Rightarrow> go_error" where
  "errors_New s = GoError s"

text \<open>
  \<open>fmt.Errorf("upload error: %v, as well as an error aborting the upload: %v", err, abortErr)\<close>
\<close>

definition upload_and_abort_error :: "go_error \<Rightarrow> go_error \<Rightarrow> go_error" where
  "upload_and_abort_error err abortErr =
     GoError (''upload error: '' @ error_string err
              @ '', as well as an error aborting the upload: '' @ error_string abortErr)"

definition Kilobyte :: int where
  "Kilobyte = 1024"

definition Megabyte :: int where
  "Megabyte = Kilobyte * 1024"

definition DefaultRegion :: string where
  "DefaultRegion = ''us-east-1''"

subsection \<open>The structures exchanged with the S3 client\<close>

text \<open>
  Only the fields the package reads or writes are kept. A \<open>*string\<close> the service returns is
  a \<open>string option\<close>; a \<open>*string\<close> built with \<open>aws.String\<close> is a \<open>string\<close>. The body
  of a part request is a \<open>bytes.Reader\<close>: \<open>upi_Body\<close> is the bytes it still holds when
  the request is sent.
\<close>

record CreateMultipartUploadInput =
  cmi_Bucket :: string
  cmi_Key :: string
  cmi_ContentType :: string

record CreateMultipartUploadOutput =
  cmo_Bucket :: "string option"
  cmo_Key :: "string option"
  cmo_UploadId :: "string option"

record UploadPartInput =
  upi_Body :: "byte list"
  upi_Bucket :: "string option"
  upi_Key :: "string option"
  upi_PartNumber :: int
  upi_UploadId :: "string option"
  upi_ContentLength :: int

record UploadPartOutput =
  upo_ETag :: "string option"

record CompletedPart =
  cp_ETag :: "string option"
  cp_PartNumber :: int

record CompleteMultipartUploadInput =
  cci_Bucket :: "string option"
  cci_Key :: "string option"
  cci_UploadId :: "string option"
  cci_Parts :: "CompletedPart list"

record CompleteMultipartUploadOutput =
  cco_Location :: "string option"
  cco_ETag :: "string option"

record AbortMultipartUploadInput =
  ami_Bucket :: "string option"
  ami_Key :: "string option"
  ami_UploadId :: "string option"

subsection \<open>Events\<close>

datatype event =
    Progress int int
  | Retry int int int
  | Complete int CompleteMultipartUploadOutput
  | Error go_error

subsection \<open>The world outside the package\<close>

text \<open>A request sent to the service.\<close>

datatype call =
    CallCreate CreateMultipartUploadInput
  | CallUploadPart UploadPartInput
  | CallComplete CompleteMultipartUploadInput
  | CallAbort AbortMultipartUploadInput

text \<open>
  The service answers a request as a function of the requests it has received before and
  of the request itself, which covers every deterministic service. As in aws-sdk-go, an
  operation returns its output structure (never nil) together with the error. A part
  request also reads its body: the third component of its answer is the number of bytes
  the client has taken from the reader by the time the call returns.

  The platform is part of the environment: the width of \<open>int\<close>, and the largest length for
  which \<open>make([]byte, n)\<close> returns (above it the runtime panics with "makeslice: len out of
  range"; on 386 it is below \<open>2 ^ 31\<close>).
\<close>

record env =
  int_size :: word_size
  make_limit :: int
  DetectContentType :: "byte list \<Rightarrow> string"
  svc_CreateMultipartUpload ::
    "call list \<Rightarrow> CreateMultipartUploadInput \<Rightarrow> CreateMultipartUploadOutput \<times> go_error option"
  svc_UploadPart ::
    "call list \<Rightarrow> UploadPartInput \<Rightarrow> UploadPartOutput \<times> go_error option \<times> nat"
  svc_CompleteMultipartUpload ::
    "call list \<Rightarrow> CompleteMultipartUploadInput \<Rightarrow> CompleteMultipartUploadOutput \<times> go_error option"
  svc_AbortMultipartUpload ::
    "call list \<Rightarrow> AbortMultipartUploadInput \<Rightarrow> go_error option"

text \<open>
  What \<open>run\<close> has done so far: the events it has sent on \<open>ch\<close>, in order (each send
  returns once the listener has received the event), and the requests it has sent to the
  service, in order.
\<close>

record world =
  ch :: "event list"
  log :: "call list"

definition send :: "event \<Rightarrow> world \<Rightarrow> world" where
  "send e w = w\<lparr>ch := ch w @ [e]\<rparr>"

definition called :: "call \<Rightarrow> world \<Rightarrow> world" where
  "called c w = w\<lparr>log := log w @ [c]\<rparr>"

text \<open>
  An \<open>io.Reader\<close> is the list of the results \<open>(buf[:n], err)\<close> of its successive \<open>Read\<close>
  calls; once the list is exhausted \<open>Read\<close> returns \<open>(0, io.EOF)\<close>. A reader may return
  fewer bytes than the buffer holds, zero bytes with a nil error, or bytes together with
  an error. A reader that never reports an error or the end of the stream has no such
  list: on it \<open>run\<close> does not terminate, and it is outside the model.
\<close>

type_synonym read_result = "byte list \<times> go_error option"

record MultipartUpload =
  Endpoint :: string
  Region :: string
  Bucket :: string
  AccessKey :: string
  SecretKey :: string
  MaxRetries :: int
  MaxPartSize :: int
  res :: "CreateMultipartUploadOutput option"
  completedParts :: "CompletedPart list"
  currentPartNumber :: int
  path :: string
  reader :: "read_result list"

text \<open>How a goroutine ends: it returns, or a run-time panic stops the program.\<close>

datatype panic = NilDereference | MakesliceLenOutOfRange | SliceBoundsOutOfRange

datatype outcome = Returned | Panicked panic

section \<open>EnglishJoin\<close>

text \<open>The \<open>for i, w := range words\<close> loop, with the builder \<open>b\<close> as accumulator.\<close>

fun EnglishJoin_loop :: "string list \<Rightarrow> bool \<Rightarrow> nat \<Rightarrow> string list \<Rightarrow> string \<Rightarrow> string" where
  "EnglishJoin_loop words oxfordComma i [] b = b"
| "EnglishJoin_loop words oxfordComma i (w # ws) b =
     (if i = 0 then EnglishJoin_loop words oxfordComma (i + 1) ws (b @ w)
      else if length words > 1 \<and> int i = int (length words) - 1 then
        EnglishJoin_loop words oxfordComma (i + 1) ws
          ((if oxfordComma \<and> i > 2 then b @ '','' else b) @ '' and'' @ ('' '' @ w))
      else EnglishJoin_loop words oxfordComma (i + 1) ws (b @ ('', '' @ w)))"

definition EnglishJoin :: "string list \<Rightarrow> bool \<Rightarrow> string" where
  "EnglishJoin words oxfordComma = EnglishJoin_loop words oxfordComma 0 words []"

section \<open>Abort, complete and uploadPart\<close>

text \<open>
  The three methods read \<open>m.res.Bucket\<close>, \<open>m.res.Key\<close> and \<open>m.res.UploadId\<close> while they
  build their request: with \<open>m.res\<close> nil this is a nil pointer dereference, before any
  request is sent.
\<close>

definition Abort :: "env \<Rightarrow> MultipartUpload \<Rightarrow> world \<Rightarrow> (panic + go_error option) \<times> world" where
  "Abort env m w =
     (case res m of
        None \<Rightarrow> (Inl NilDereference, w)
      | Some r \<Rightarrow>
          (let input = \<lparr>ami_Bucket = cmo_Bucket r, ami_Key = cmo_Key r,
                        ami_UploadId = cmo_UploadId r\<rparr>
           in (Inr (svc_AbortMultipartUpload env (log w) input), called (CallAbort input) w)))"

definition complete ::
  "env \<Rightarrow> MultipartUpload \<Rightarrow> world
     \<Rightarrow> (panic + CompleteMultipartUploadOutput \<times> go_error option) \<times> world" where
  "complete env m w =
     (case res m of
        None \<Rightarrow> (Inl NilDereference, w)
      | Some r \<Rightarrow>
          (let input = \<lparr>cci_Bucket = cmo_Bucket r, cci_Key = cmo_Key r,
                        cci_UploadId = cmo_UploadId r, cci_Parts = completedParts m\<rparr>
           in (Inr (svc_CompleteMultipartUpload env (log w) input),
               called (CallComplete input) w)))"

text \<open>
  The loop \<open>for tryNum <= m.MaxRetries\<close> of \<open>uploadPart\<close>. \<open>Some\<close> is a \<open>return\<close> inside the
  loop (\<open>Inl\<close> the failure of the last attempt, \<open>Inr\<close> the completed part); \<open>None\<close> is the
  loop left through its condition. The type assertion \<open>err.(awserr.Error)\<close> returns the
  same error value in both of its branches.

  \<open>partInput\<close> is built once, before the loop, and its body is one \<open>bytes.Reader\<close> that
  every attempt reads from: the next attempt sends what the attempts before it have left.
  \<open>tryNum++\<close> runs only while \<open>tryNum\<close> is below \<open>m.MaxRetries\<close>, so it does not overflow.
\<close>

function uploadPart_loop ::
  "env \<Rightarrow> MultipartUpload \<Rightarrow> UploadPartInput \<Rightarrow> int \<Rightarrow> int \<Rightarrow> world
     \<Rightarrow> (go_error + CompletedPart) option \<times> world" where
  "uploadPart_loop env m partInput partNum tryNum w =
     (if tryNum \<le> MaxRetries m then
        (case svc_UploadPart env (log w) partInput of
           (r, Some err, taken) \<Rightarrow>
             if tryNum = MaxRetries m then
               (Some (Inl err), called (CallUploadPart partInput) w)
             else
               uploadPart_loop env m
                 (partInput\<lparr>upi_Body := drop taken (upi_Body partInput)\<rparr>) partNum (tryNum + 1)
                 (send (Retry (currentPartNumber m) tryNum (MaxRetries m))
                    (called (CallUploadPart partInput) w))
         | (r, None, taken) \<Rightarrow>
             (Some (Inr \<lparr>cp_ETag = upo_ETag r, cp_PartNumber = partNum\<rparr>),
              called (CallUploadPart partInput) w))
      else (None, w))"
  by pat_completeness auto
termination
  by (relation "measure (\<lambda>(env, m, partInput, partNum, tryNum, w). nat (MaxRetries m - tryNum))")
     auto

declare uploadPart_loop.simps [simp del]

definition uploadPart ::
  "env \<Rightarrow> MultipartUpload \<Rightarrow> byte list \<Rightarrow> int \<Rightarrow> world
     \<Rightarrow> (panic + go_error + CompletedPart) \<times> world" where
  "uploadPart env m chunk partNum w =
     (case res m of
        None \<Rightarrow> (Inl NilDereference, w)
      | Some r \<Rightarrow>
          (let partInput = \<lparr>upi_Body = chunk, upi_Bucket = cmo_Bucket r, upi_Key = cmo_Key r,
                            upi_PartNumber = partNum, upi_UploadId = cmo_UploadId r,
                            upi_ContentLength = int (length chunk)\<rparr>
           in case uploadPart_loop env m partInput partNum 1 w of
                (Some ret, w') \<Rightarrow> (Inr ret, w')
              | (None, w') \<Rightarrow> (Inr (Inl (errors_New ''could not upload part'')), w')))"

section \<open>run and Send\<close>

text \<open>
  The block that \<open>run\<close> executes when a read or a part has failed with \<open>err\<close> (it is written
  out twice in \<open>run\<close>): abort the upload, then report.
\<close>

definition abort_and_report ::
  "env \<Rightarrow> MultipartUpload \<Rightarrow> go_error \<Rightarrow> world \<Rightarrow> outcome \<times> world" where
  "abort_and_report env m err w =
     (case Abort env m w of
        (Inl p, w') \<Rightarrow> (Panicked p, w')
      | (Inr (Some abortErr), w') \<Rightarrow>
          (Returned, send (Error (upload_and_abort_error err abortErr)) w')
      | (Inr None, w') \<Rightarrow> (Returned, send (Error err) w'))"

text \<open>What follows the loop of \<open>run\<close>: \<open>m.complete()\<close> and the events after it.\<close>

definition finish :: "env \<Rightarrow> MultipartUpload \<Rightarrow> int \<Rightarrow> world \<Rightarrow> outcome \<times> world" where
  "finish env m totalBytes w =
     (case complete env m w of
        (Inl p, w') \<Rightarrow> (Panicked p, w')
      | (Inr (r, err), w') \<Rightarrow>
          (let w'' = (case err of Some e \<Rightarrow> send (Error e) w' | None \<Rightarrow> w')
           in (Returned, send (Complete totalBytes r) w'')))"

text \<open>
  The block \<open>if m.res == nil\<close>: the assignment \<open>m.res, err = ...\<close> stores the output also
  when the request failed.
\<close>

definition request_upload ::
  "env \<Rightarrow> MultipartUpload \<Rightarrow> byte list \<Rightarrow> world \<Rightarrow> go_error option \<times> MultipartUpload \<times> world" where
  "request_upload env m chunk w =
     (case res m of
        Some r \<Rightarrow> (None, m, w)
      | None \<Rightarrow>
          (let input = \<lparr>cmi_Bucket = Bucket m, cmi_Key = path m,
                        cmi_ContentType = DetectContentType env chunk\<rparr>;
               (r, err) = svc_CreateMultipartUpload env (log w) input
           in (err, m\<lparr>res := Some r\<rparr>, called (CallCreate input) w)))"

text \<open>
  The loop of \<open>run\<close>, over the results of the reader's successive \<open>Read\<close> calls. The slice
  expression \<open>buf[:n]\<close> panics when \<open>n\<close> exceeds the buffer, whose length is \<open>m.MaxPartSize\<close>.
  \<open>totalBytes += n\<close> and \<open>m.currentPartNumber++\<close> are additions on \<open>int\<close>. The result
  includes the upload as the loop leaves it: \<open>run\<close> has a pointer receiver, and the caller's
  struct keeps what \<open>run\<close> has stored in it.
\<close>

fun run_loop ::
  "env \<Rightarrow> MultipartUpload \<Rightarrow> int \<Rightarrow> read_result list \<Rightarrow> world
     \<Rightarrow> (outcome \<times> world) \<times> MultipartUpload" where
  "run_loop env m totalBytes [] w = (finish env m totalBytes w, m)"
| "run_loop env m totalBytes ((chunk, err) # rd) w =
     (case err of
        Some e \<Rightarrow>
          if e = IoEOF then (finish env m totalBytes w, m)
          else (abort_and_report env m e w, m)
      | None \<Rightarrow>
          if int (length chunk) > MaxPartSize m then ((Panicked SliceBoundsOutOfRange, w), m)
          else
            (case request_upload env m chunk w of
               (Some e, m1, w1) \<Rightarrow> ((Returned, send (Error e) w1), m1)
             | (None, m1, w1) \<Rightarrow>
                 (case uploadPart env m1 chunk (currentPartNumber m1) w1 of
                    (Inl p, w2) \<Rightarrow> ((Panicked p, w2), m1)
                  | (Inr (Inl e), w2) \<Rightarrow> (abort_and_report env m1 e w2, m1)
                  | (Inr (Inr part), w2) \<Rightarrow>
                      run_loop env
                        (m1\<lparr>completedParts := completedParts m1 @ [part],
                            currentPartNumber := go_int (int_size env) (currentPartNumber m1 + 1)\<rparr>)
                        (go_int (int_size env) (totalBytes + int (length chunk))) rd
                        (send (Progress (currentPartNumber m1) (int (length chunk))) w2))))"

definition set_defaults :: "MultipartUpload \<Rightarrow> MultipartUpload" where
  "set_defaults m =
     (let m1 = (if MaxRetries m = 0 then m\<lparr>MaxRetries := 3\<rparr> else m);
          m2 = (if MaxPartSize m1 = 0 then m1\<lparr>MaxPartSize := Megabyte * 5\<rparr> else m1);
          m3 = (if Endpoint m2 = [] then m2\<lparr>Endpoint := ''nyc3.digitaloceanspaces.com''\<rparr> else m2)
      in (if Region m3 = [] then m3\<lparr>Region := DefaultRegion\<rparr> else m3))"

definition missing_fields :: "MultipartUpload \<Rightarrow> string list" where
  "missing_fields m =
     (if AccessKey m = [] then [''AccessKey''] else [])
     @ (if SecretKey m = [] then [''SecretKey''] else [])
     @ (if Bucket m = [] then [''Bucket''] else [])"

definition w0 :: world where
  "w0 = \<lparr>ch = [], log = []\<rparr>"

text \<open>
  \<open>run\<close>: defaults, validation, then \<open>make([]byte, m.MaxPartSize)\<close> (which panics on a
  negative length and on a length above the limit of the platform) and the loop. Building
  the S3 client sends no request. The second component is the upload as \<open>run\<close> leaves it.
\<close>

definition run :: "env \<Rightarrow> MultipartUpload \<Rightarrow> (outcome \<times> world) \<times> MultipartUpload" where
  "run env m0 =
     (let m = set_defaults m0;
          missing = missing_fields m
      in if length missing > 0 then
           ((Returned, send (Error (errors_New (''missing '' @ EnglishJoin missing True))) w0), m)
         else if MaxPartSize m < 0 \<or> make_limit env < MaxPartSize m then
           ((Panicked MakesliceLenOutOfRange, w0), m\<lparr>currentPartNumber := 1\<rparr>)
         else run_loop env (m\<lparr>currentPartNumber := 1\<rparr>) 0 (reader m) w0)"

text \<open>
  \<open>Send\<close> stores the reader and the path in the upload and starts \<open>run\<close> on a channel of
  its own. \<open>Send\<close> is what the listener and the service see of the call; \<open>after_Send\<close> is
  the caller's struct once \<open>run\<close> has returned (its field \<open>reader\<close> still names the reader
  of that call, which the next \<open>Send\<close> replaces).
\<close>

definition Send :: "env \<Rightarrow> MultipartUpload \<Rightarrow> read_result list \<Rightarrow> string \<Rightarrow> outcome \<times> world" where
  "Send env m rd p = fst (run env (m\<lparr>reader := rd, path := p\<rparr>))"

definition after_Send :: "env \<Rightarrow> MultipartUpload \<Rightarrow> read_result list \<Rightarrow> string \<Rightarrow> MultipartUpload" where
  "after_Send env m rd p = snd (run env (m\<lparr>reader := rd, path := p\<rparr>))"

section \<open>Observations on a run\<close>

text \<open>The Progress events of a channel, as pairs of part number and bytes.\<close>

definition progress :: "event list \<Rightarrow> (int \<times> int) list" where
  "progress evs = concat (map (\<lambda>e. case e of Progress n b \<Rightarrow> [(n, b)] | _ \<Rightarrow> []) evs)"

text \<open>The Retry events of a channel.\<close>

definition retries :: "event list \<Rightarrow> (int \<times> int \<times> int) list" where
  "retries evs = concat (map (\<lambda>e. case e of Retry n t k \<Rightarrow> [(n, t, k)] | _ \<Rightarrow> []) evs)"

text \<open>The causes of the Error events and the byte counts of the Complete events.\<close>

definition errors :: "event list \<Rightarrow> go_error list" where
  "errors evs = concat (map (\<lambda>e. case e of Error x \<Rightarrow> [x] | _ \<Rightarrow> []) evs)"

definition completes :: "event list \<Rightarrow> int list" where
  "completes evs = concat (map (\<lambda>e. case e of Complete b r \<Rightarrow> [b] | _ \<Rightarrow> []) evs)"

text \<open>
  The requests of each kind in a log; a part request is given by its part number and the
  body it carries.
\<close>

definition created :: "call list \<Rightarrow> CreateMultipartUploadInput list" where
  "created cs = concat (map (\<lambda>c. case c of CallCreate i \<Rightarrow> [i] | _ \<Rightarrow> []) cs)"

definition part_requests :: "call list \<Rightarrow> (int \<times> byte list) list" where
  "part_requests cs =
     concat (map (\<lambda>c. case c of CallUploadPart i \<Rightarrow> [(upi_PartNumber i, upi_Body i)] | _ \<Rightarrow> []) cs)"

definition completions :: "call list \<Rightarrow> CompleteMultipartUploadInput list" where
  "completions cs = concat (map (\<lambda>c. case c of CallComplete i \<Rightarrow> [i] | _ \<Rightarrow> []) cs)"

definition aborts :: "call list \<Rightarrow> AbortMultipartUploadInput list" where
  "aborts cs = concat (map (\<lambda>c. case c of CallAbort i \<Rightarrow> [i] | _ \<Rightarrow> []) cs)"

text \<open>The request \<open>uploadPart\<close> builds for a chunk.\<close>

definition part_input :: "CreateMultipartUploadOutput \<Rightarrow> byte list \<Rightarrow> int \<Rightarrow> UploadPartInput" where
  "part_input r chunk partNum =
     \<lparr>upi_Body = chunk, upi_Bucket = cmo_Bucket r, upi_Key = cmo_Key r,
      upi_PartNumber = partNum, upi_UploadId = cmo_UploadId r,
      upi_ContentLength = int (length chunk)\<rparr>"

text \<open>
  The chunks a reader delivers by reads without error, up to its first read with an error
  (end of stream included).
\<close>

definition chunks_read :: "read_result list \<Rightarrow> byte list list" where
  "chunks_read rd = map fst (takeWhile (\<lambda>r. snd r = None) rd)"

text \<open>
  The bytes a reader returns together with its first error (end of stream included); none
  when it has no such read.
\<close>

definition bytes_with_error :: "read_result list \<Rightarrow> byte list" where
  "bytes_with_error rd =
     (case dropWhile (\<lambda>r. snd r = None) rd of [] \<Rightarrow> [] | (chunk, e) # rest \<Rightarrow> chunk)"





section \<open>Example inputs\<close>

text \<open>
  A service that accepts every request and reads the whole body of a part request, on a
  64-bit platform.
\<close>

definition example_env :: env where
  "example_env =
     \<lparr>int_size = Bits64,
      make_limit = 2 ^ 48,
      DetectContentType =
        (\<lambda>c. if c = [] then ''text/plain; charset=utf-8'' else ''application/octet-stream''),
      svc_CreateMultipartUpload =
        (\<lambda>h i. (\<lparr>cmo_Bucket = Some (cmi_Bucket i), cmo_Key = Some (cmi_Key i),
                  cmo_UploadId = Some ''id''\<rparr>, None)),
      svc_UploadPart = (\<lambda>h i. (\<lparr>upo_ETag = Some ''etag''\<rparr>, None, length (upi_Body i))),
      svc_CompleteMultipartUpload = (\<lambda>h i. (\<lparr>cco_Location = None, cco_ETag = None\<rparr>, None)),
      svc_AbortMultipartUpload = (\<lambda>h i. None)\<rparr>"

text \<open>The same service, with a completion request that fails.\<close>

definition complete_fails_env :: env where
  "complete_fails_env =
     example_env\<lparr>svc_CompleteMultipartUpload :=
       (\<lambda>h i. (\<lparr>cco_Location = None, cco_ETag = None\<rparr>, Some (GoError ''InternalError'')))\<rparr>"

text \<open>The same service, with part requests that fail until three requests have been received.\<close>

definition flaky_env :: env where
  "flaky_env =
     example_env\<lparr>svc_UploadPart :=
       (\<lambda>h i. (\<lparr>upo_ETag = Some ''etag''\<rparr>,
                if length h < 3 then Some (GoError ''RequestTimeout'') else None,
                length (upi_Body i)))\<rparr>"

text \<open>The first service on a 386 build: \<open>int\<close> has 32 bits.\<close>

definition example_env_386 :: env where
  "example_env_386 = example_env\<lparr>int_size := Bits32, make_limit := 2 ^ 31 - 1\<rparr>"

text \<open>A newly built upload: the exported fields as a caller sets them, the others zero.\<close>

definition example_upload :: MultipartUpload where
  "example_upload =
     \<lparr>Endpoint = [], Region = [], Bucket = ''b'', AccessKey = ''a'', SecretKey = ''s'',
      MaxRetries = 0, MaxPartSize = 0, res = None, completedParts = [],
      currentPartNumber = 0, path = [], reader = []\<rparr>"

definition example_session :: CreateMultipartUploadOutput where
  "example_session = \<lparr>cmo_Bucket = Some ''b'', cmo_Key = Some ''k'', cmo_UploadId = Some ''id''\<rparr>"

section \<open>Observations of appended events and requests\<close>

lemma upto_shift: "i \<le> j \<Longrightarrow> [i..j] = i # [i + 1..j]"
  by (simp add: upto_rec1)

lemma progress_simps [simp]:
  "progress [] = []"
  "progress (xs @ ys) = progress xs @ progress ys"
  "progress (Progress n b # es) = (n, b) # progress es"
  "progress (Retry n t k # es) = progress es"
  "progress (Complete c r # es) = progress es"
  "progress (Error x # es) = progress es"
  by (simp_all add: progress_def)

lemma retries_simps [simp]:
  "retries [] = []"
  "retries (xs @ ys) = retries xs @ retries ys"
  "retries (Progress n b # es) = retries es"
  "retries (Retry n t k # es) = (n, t, k) # retries es"
  "retries (Complete c r # es) = retries es"
  "retries (Error x # es) = retries es"
  by (simp_all add: retries_def)

lemma errors_simps [simp]:
  "errors [] = []"
  "errors (xs @ ys) = errors xs @ errors ys"
  "errors (Progress n b # es) = errors es"
  "errors (Retry n t k # es) = errors es"
  "errors (Complete c r # es) = errors es"
  "errors (Error x # es) = x # errors es"
  by (simp_all add: errors_def)

lemma completes_simps [simp]:
  "completes [] = []"
  "completes (xs @ ys) = completes xs @ completes ys"
  "completes (Progress n b # es) = completes es"
  "completes (Retry n t k # es) = completes es"
  "completes (Complete c r # es) = c # completes es"
  "completes (Error x # es) = completes es"
  by (simp_all add: completes_def)

lemma created_simps [simp]:
  "created [] = []"
  "created (xs @ ys) = created xs @ created ys"
  "created (CallCreate i # cs) = i # created cs"
  "created (CallUploadPart u # cs) = created cs"
  "created (CallComplete c # cs) = created cs"
  "created (CallAbort a # cs) = created cs"
  by (simp_all add: created_def)

lemma part_requests_simps [simp]:
  "part_requests [] = []"
  "part_requests (xs @ ys) = part_requests xs @ part_requests ys"
  "part_requests (CallCreate i # cs) = part_requests cs"
  "part_requests (CallUploadPart u # cs) = (upi_PartNumber u, upi_Body u) # part_requests cs"
  "part_requests (CallComplete c # cs) = part_requests cs"
  "part_requests (CallAbort a # cs) = part_requests cs"
  by (simp_all add: part_requests_def)

lemma completions_simps [simp]:
  "completions [] = []"
  "completions (xs @ ys) = completions xs @ completions ys"
  "completions (CallCreate i # cs) = completions cs"
  "completions (CallUploadPart u # cs) = completions cs"
  "completions (CallComplete c # cs) = c # completions cs"
  "completions (CallAbort a # cs) = completions cs"
  by (simp_all add: completions_def)

lemma aborts_simps [simp]:
  "aborts [] = []"
  "aborts (xs @ ys) = aborts xs @ aborts ys"
  "aborts (CallCreate i # cs) = aborts cs"
  "aborts (CallUploadPart u # cs) = aborts cs"
  "aborts (CallComplete c # cs) = aborts cs"
  "aborts (CallAbort a # cs) = a # aborts cs"
  by (simp_all add: aborts_def)

lemma retry_list_obs [simp]:
  "progress (map (\<lambda>n. Retry p n k) ns) = []"
  "errors (map (\<lambda>n. Retry p n k) ns) = []"
  "completes (map (\<lambda>n. Retry p n k) ns) = []"
  "retries (map (\<lambda>n. Retry p n k) ns) = map (\<lambda>n. (p, n, k)) ns"
  by (induction ns) simp_all

lemma upload_list_obs [simp]:
  "created (map CallUploadPart qs) = []"
  "completions (map CallUploadPart qs) = []"
  "aborts (map CallUploadPart qs) = []"
  "part_requests (map CallUploadPart qs) = map (\<lambda>q. (upi_PartNumber q, upi_Body q)) qs"
  by (induction qs) simp_all

lemma send_simps [simp]: "ch (send e w) = ch w @ [e]" "log (send e w) = log w"
  by (simp_all add: send_def)

lemma called_simps [simp]: "ch (called c w) = ch w" "log (called c w) = log w @ [c]"
  by (simp_all add: called_def)

lemma Abort_cases:
  "Abort env m w = (ret, w') \<Longrightarrow>
     (res m = None \<and> ret = Inl NilDereference \<and> w' = w)
   \<or> (\<exists>r. res m = Some r
        \<and> ret = Inr (svc_AbortMultipartUpload env (log w)
                  \<lparr>ami_Bucket = cmo_Bucket r, ami_Key = cmo_Key r, ami_UploadId = cmo_UploadId r\<rparr>)
        \<and> w' = called (CallAbort \<lparr>ami_Bucket = cmo_Bucket r, ami_Key = cmo_Key r,
                                  ami_UploadId = cmo_UploadId r\<rparr>) w)"
  by (auto simp: Abort_def Let_def split: option.splits)

lemma abort_and_report_cases:
  "abort_and_report env m err w = (out, w') \<Longrightarrow>
     (res m = None \<and> out = Panicked NilDereference \<and> w' = w)
   \<or> (\<exists>r e. res m = Some r \<and> out = Returned
        \<and> log w' = log w @ [CallAbort \<lparr>ami_Bucket = cmo_Bucket r, ami_Key = cmo_Key r,
                                        ami_UploadId = cmo_UploadId r\<rparr>]
        \<and> ch w' = ch w @ [Error e]
        \<and> e = (case svc_AbortMultipartUpload env (log w)
                     \<lparr>ami_Bucket = cmo_Bucket r, ami_Key = cmo_Key r, ami_UploadId = cmo_UploadId r\<rparr> of
                 None \<Rightarrow> err | Some abortErr \<Rightarrow> upload_and_abort_error err abortErr))"
  by (auto simp: abort_and_report_def Abort_def Let_def split: option.splits)

lemma finish_cases:
  "finish env m totalBytes w = (out, w') \<Longrightarrow>
     (res m = None \<and> out = Panicked NilDereference \<and> w' = w)
   \<or> (\<exists>r input resp. res m = Some r \<and> out = Returned
        \<and> input = \<lparr>cci_Bucket = cmo_Bucket r, cci_Key = cmo_Key r,
                    cci_UploadId = cmo_UploadId r, cci_Parts = completedParts m\<rparr>
        \<and> resp = svc_CompleteMultipartUpload env (log w) input
        \<and> log w' = log w @ [CallComplete input]
        \<and> ch w' = ch w @ (case snd resp of None \<Rightarrow> [] | Some e \<Rightarrow> [Error e])
                      @ [Complete totalBytes (fst resp)])"
  by (auto simp: finish_def complete_def Let_def split: option.splits prod.splits)

lemma request_upload_cases:
  "request_upload env m chunk w = (err, m1, w1) \<Longrightarrow>
     (\<exists>r. res m = Some r \<and> err = None \<and> m1 = m \<and> w1 = w)
   \<or> (\<exists>input. res m = None
        \<and> input = \<lparr>cmi_Bucket = Bucket m, cmi_Key = path m,
                    cmi_ContentType = DetectContentType env chunk\<rparr>
        \<and> err = snd (svc_CreateMultipartUpload env (log w) input)
        \<and> m1 = m\<lparr>res := Some (fst (svc_CreateMultipartUpload env (log w) input))\<rparr>
        \<and> ch w1 = ch w \<and> log w1 = log w @ [CallCreate input])"
  by (auto simp: request_upload_def Let_def split: option.splits prod.splits)

section \<open>What each step adds to the channel and to the log\<close>

text \<open>
  The requests of one call of the loop: as many as attempts, all for the part of
  \<open>partInput\<close>, the first of them \<open>partInput\<close> itself; one Retry event for each attempt but
  the last; the result is that of the last attempt.
\<close>

lemma uploadPart_loop_shape:
  "uploadPart_loop env m partInput partNum tryNum w = (ret, w') \<Longrightarrow>
   \<exists>reqs.
     log w' = log w @ map CallUploadPart reqs
     \<and> ch w' = ch w @ map (\<lambda>n. Retry (currentPartNumber m) n (MaxRetries m))
                        [tryNum..tryNum + int (length reqs) - 2]
     \<and> (tryNum \<le> MaxRetries m \<longrightarrow>
          reqs \<noteq> [] \<and> hd reqs = partInput \<and> tryNum + int (length reqs) - 1 \<le> MaxRetries m)
     \<and> (\<forall>q \<in> set reqs. upi_PartNumber q = upi_PartNumber partInput)
     \<and> (case ret of
          None \<Rightarrow> reqs = [] \<and> \<not> tryNum \<le> MaxRetries m
        | Some (Inl err) \<Rightarrow>
            tryNum + int (length reqs) - 1 = MaxRetries m
            \<and> fst (snd (svc_UploadPart env (log w @ map CallUploadPart (butlast reqs)) (last reqs)))
                = Some err
        | Some (Inr part) \<Rightarrow>
            fst (snd (svc_UploadPart env (log w @ map CallUploadPart (butlast reqs)) (last reqs)))
                = None
            \<and> part = \<lparr>cp_ETag = upo_ETag (fst (svc_UploadPart env
                          (log w @ map CallUploadPart (butlast reqs)) (last reqs))),
                      cp_PartNumber = partNum\<rparr>)"
proof (induction env m partInput partNum tryNum w arbitrary: ret w' rule: uploadPart_loop.induct)
  case (1 env m partInput partNum tryNum w)
  let ?c = "CallUploadPart partInput"
  let ?resp = "svc_UploadPart env (log w) partInput"
  let ?next = "partInput\<lparr>upi_Body := drop (snd (snd ?resp)) (upi_Body partInput)\<rparr>"
  note unf = uploadPart_loop.simps[of env m partInput partNum tryNum w]
  from "1.prems" have prems:
    "(if tryNum \<le> MaxRetries m then
        (case ?resp of
           (r, Some err, taken) \<Rightarrow>
             if tryNum = MaxRetries m then
               (Some (Inl err), called ?c w)
             else
               uploadPart_loop env m
                 (partInput\<lparr>upi_Body := drop taken (upi_Body partInput)\<rparr>) partNum (tryNum + 1)
                 (send (Retry (currentPartNumber m) tryNum (MaxRetries m)) (called ?c w))
         | (r, None, taken) \<Rightarrow>
             (Some (Inr \<lparr>cp_ETag = upo_ETag r, cp_PartNumber = partNum\<rparr>), called ?c w))
      else (None, w)) = (ret, w')"
    unfolding unf .
  show ?case
  proof (cases "tryNum \<le> MaxRetries m")
    case False
    with prems have "ret = None" "w' = w" by auto
    with False show ?thesis by (intro exI[of _ "[]"]) simp
  next
    case le: True
    show ?thesis
    proof (cases "fst (snd ?resp)")
      case None
      with le prems have "ret = Some (Inr \<lparr>cp_ETag = upo_ETag (fst ?resp), cp_PartNumber = partNum\<rparr>)"
        "w' = called ?c w"
        by (auto split: prod.splits)
      with le None show ?thesis
        by (intro exI[of _ "[partInput]"]) simp
    next
      case (Some err)
      show ?thesis
      proof (cases "tryNum = MaxRetries m")
        case True
        with le Some prems have "ret = Some (Inl err)" "w' = called ?c w"
          by (auto split: prod.splits)
        with le Some True show ?thesis
          by (intro exI[of _ "[partInput]"]) simp
      next
        case False
        let ?w1 = "send (Retry (currentPartNumber m) tryNum (MaxRetries m)) (called ?c w)"
        from le Some False prems
        have rec: "uploadPart_loop env m ?next partNum (tryNum + 1) ?w1 = (ret, w')"
          by (auto split: prod.splits)
        have resp: "?resp = (fst ?resp, Some err, snd (snd ?resp))"
          using Some by (cases ?resp) auto
        have lt: "tryNum + 1 \<le> MaxRetries m" using le False by simp
        from "1.IH"[OF le resp[symmetric] refl refl False rec]
        obtain reqs where a:
          "log w' = log ?w1 @ map CallUploadPart reqs"
          "ch w' = ch ?w1 @ map (\<lambda>n. Retry (currentPartNumber m) n (MaxRetries m))
                        [tryNum + 1..tryNum + 1 + int (length reqs) - 2]"
          "tryNum + 1 \<le> MaxRetries m \<longrightarrow>
             reqs \<noteq> [] \<and> hd reqs = ?next \<and> tryNum + 1 + int (length reqs) - 1 \<le> MaxRetries m"
          "\<forall>q \<in> set reqs. upi_PartNumber q = upi_PartNumber ?next"
          "case ret of
             None \<Rightarrow> reqs = [] \<and> \<not> tryNum + 1 \<le> MaxRetries m
           | Some (Inl err) \<Rightarrow>
               tryNum + 1 + int (length reqs) - 1 = MaxRetries m
               \<and> fst (snd (svc_UploadPart env (log ?w1 @ map CallUploadPart (butlast reqs)) (last reqs)))
                   = Some err
           | Some (Inr part) \<Rightarrow>
               fst (snd (svc_UploadPart env (log ?w1 @ map CallUploadPart (butlast reqs)) (last reqs)))
                   = None
               \<and> part = \<lparr>cp_ETag = upo_ETag (fst (svc_UploadPart env
                             (log ?w1 @ map CallUploadPart (butlast reqs)) (last reqs))),
                         cp_PartNumber = partNum\<rparr>"
          by blast
        from a(3) lt have ne: "reqs \<noteq> []" and bound: "tryNum + 1 + int (length reqs) - 1 \<le> MaxRetries m"
          by simp_all
        let ?reqs = "partInput # reqs"
        have logw1: "log ?w1 = log w @ [?c]" by simp
        have chw1: "ch ?w1 = ch w @ [Retry (currentPartNumber m) tryNum (MaxRetries m)]"
          by simp
        have bl: "butlast ?reqs = partInput # butlast reqs" "last ?reqs = last reqs"
          using ne by simp_all
        have pre: "log ?w1 @ map CallUploadPart (butlast reqs) = log w @ map CallUploadPart (butlast ?reqs)"
          unfolding bl logw1 by simp
        have A: "log w' = log w @ map CallUploadPart ?reqs"
          using a(1) by simp
        have B: "ch w' = ch w @ map (\<lambda>n. Retry (currentPartNumber m) n (MaxRetries m))
                        [tryNum..tryNum + int (length ?reqs) - 2]"
        proof -
          have "tryNum \<le> tryNum + int (length ?reqs) - 2" using ne by (cases reqs) simp_all
          then have "[tryNum..tryNum + int (length ?reqs) - 2]
              = tryNum # [tryNum + 1..tryNum + int (length ?reqs) - 2]"
            by (rule upto_shift)
          moreover have "tryNum + 1 + int (length reqs) - 2 = tryNum + int (length ?reqs) - 2" by simp
          ultimately show ?thesis using a(2) by (simp add: chw1)
        qed
        have C: "tryNum \<le> MaxRetries m \<longrightarrow>
             ?reqs \<noteq> [] \<and> hd ?reqs = partInput \<and> tryNum + int (length ?reqs) - 1 \<le> MaxRetries m"
          using bound by simp
        have D: "\<forall>q \<in> set ?reqs. upi_PartNumber q = upi_PartNumber partInput"
          using a(4) by simp
        have E: "case ret of
             None \<Rightarrow> ?reqs = [] \<and> \<not> tryNum \<le> MaxRetries m
           | Some (Inl err) \<Rightarrow>
               tryNum + int (length ?reqs) - 1 = MaxRetries m
               \<and> fst (snd (svc_UploadPart env (log w @ map CallUploadPart (butlast ?reqs)) (last ?reqs)))
                   = Some err
           | Some (Inr part) \<Rightarrow>
               fst (snd (svc_UploadPart env (log w @ map CallUploadPart (butlast ?reqs)) (last ?reqs)))
                   = None
               \<and> part = \<lparr>cp_ETag = upo_ETag (fst (svc_UploadPart env
                             (log w @ map CallUploadPart (butlast ?reqs)) (last ?reqs))),
                         cp_PartNumber = partNum\<rparr>"
          using a(5) lt unfolding pre bl(2)
          by (auto split: option.splits sum.splits)
        from A B C D E show ?thesis by (intro exI[of _ ?reqs]) blast
      qed
    qed
  qed
qed

lemma uploadPart_cases:
  assumes "uploadPart env m chunk partNum w = (ret, w')"
  shows "(res m = None \<and> ret = Inl NilDereference \<and> w' = w)
   \<or> (\<exists>r reqs. res m = Some r
        \<and> log w' = log w @ map CallUploadPart reqs
        \<and> ch w' = ch w @ map (\<lambda>n. Retry (currentPartNumber m) n (MaxRetries m))
                           [1..int (length reqs) - 1]
        \<and> (\<forall>q \<in> set reqs. upi_PartNumber q = partNum)
        \<and> ((MaxRetries m < 1 \<and> reqs = []
               \<and> ret = Inr (Inl (errors_New ''could not upload part'')))
           \<or> (reqs \<noteq> [] \<and> hd reqs = part_input r chunk partNum
               \<and> int (length reqs) = MaxRetries m
               \<and> (\<exists>err. ret = Inr (Inl err)
                    \<and> fst (snd (svc_UploadPart env (log w @ map CallUploadPart (butlast reqs))
                                  (last reqs))) = Some err))
           \<or> (reqs \<noteq> [] \<and> hd reqs = part_input r chunk partNum
               \<and> int (length reqs) \<le> MaxRetries m
               \<and> fst (snd (svc_UploadPart env (log w @ map CallUploadPart (butlast reqs))
                             (last reqs))) = None
               \<and> ret = Inr (Inr \<lparr>cp_ETag = upo_ETag (fst (svc_UploadPart env
                                    (log w @ map CallUploadPart (butlast reqs)) (last reqs))),
                                cp_PartNumber = partNum\<rparr>))))"
proof (cases "res m")
  case None
  with assms show ?thesis by (simp add: uploadPart_def)
next
  case (Some r)
  let ?pi = "part_input r chunk partNum"
  obtain lret w2 where loop: "uploadPart_loop env m ?pi partNum 1 w = (lret, w2)"
    by (cases "uploadPart_loop env m ?pi partNum 1 w") blast
  have unf: "uploadPart env m chunk partNum w =
      (case uploadPart_loop env m ?pi partNum 1 w of
         (Some x, w') \<Rightarrow> (Inr x, w')
       | (None, w') \<Rightarrow> (Inr (Inl (errors_New ''could not upload part'')), w'))"
    using Some by (simp add: uploadPart_def part_input_def)
  have w2: "w2 = w'" and ret: "ret = (case lret of Some x \<Rightarrow> Inr x
                     | None \<Rightarrow> Inr (Inl (errors_New ''could not upload part'')))"
    using assms unfolding unf loop by (cases lret; simp)+
  note loop = loop[unfolded w2]
  have pn: "upi_PartNumber ?pi = partNum" by (simp add: part_input_def)
  from uploadPart_loop_shape[OF loop] obtain reqs where a:
     "log w' = log w @ map CallUploadPart reqs"
     "ch w' = ch w @ map (\<lambda>n. Retry (currentPartNumber m) n (MaxRetries m))
                        [1..1 + int (length reqs) - 2]"
     "1 \<le> MaxRetries m \<longrightarrow>
          reqs \<noteq> [] \<and> hd reqs = ?pi \<and> 1 + int (length reqs) - 1 \<le> MaxRetries m"
     "\<forall>q \<in> set reqs. upi_PartNumber q = upi_PartNumber ?pi"
     "case lret of
          None \<Rightarrow> reqs = [] \<and> \<not> 1 \<le> MaxRetries m
        | Some (Inl err) \<Rightarrow>
            1 + int (length reqs) - 1 = MaxRetries m
            \<and> fst (snd (svc_UploadPart env (log w @ map CallUploadPart (butlast reqs)) (last reqs)))
                = Some err
        | Some (Inr part) \<Rightarrow>
            fst (snd (svc_UploadPart env (log w @ map CallUploadPart (butlast reqs)) (last reqs)))
                = None
            \<and> part = \<lparr>cp_ETag = upo_ETag (fst (svc_UploadPart env
                          (log w @ map CallUploadPart (butlast reqs)) (last reqs))),
                      cp_PartNumber = partNum\<rparr>"
    by blast
  have idx: "1 + int (length reqs) - 2 = int (length reqs) - 1" by simp
  have all: "\<forall>q \<in> set reqs. upi_PartNumber q = partNum" using a(4) pn by simp
  have last: "(MaxRetries m < 1 \<and> reqs = []
               \<and> ret = Inr (Inl (errors_New ''could not upload part'')))
           \<or> (reqs \<noteq> [] \<and> hd reqs = ?pi
               \<and> int (length reqs) = MaxRetries m
               \<and> (\<exists>err. ret = Inr (Inl err)
                    \<and> fst (snd (svc_UploadPart env (log w @ map CallUploadPart (butlast reqs))
                                  (last reqs))) = Some err))
           \<or> (reqs \<noteq> [] \<and> hd reqs = ?pi
               \<and> int (length reqs) \<le> MaxRetries m
               \<and> fst (snd (svc_UploadPart env (log w @ map CallUploadPart (butlast reqs))
                             (last reqs))) = None
               \<and> ret = Inr (Inr \<lparr>cp_ETag = upo_ETag (fst (svc_UploadPart env
                                    (log w @ map CallUploadPart (butlast reqs)) (last reqs))),
                                cp_PartNumber = partNum\<rparr>))"
  proof (cases lret)
    case None
    with a(5) ret show ?thesis by simp
  next
    case (Some x)
    have M: "1 \<le> MaxRetries m"
    proof (rule ccontr)
      assume "\<not> 1 \<le> MaxRetries m"
      then have "uploadPart_loop env m ?pi partNum 1 w = (None, w)"
        by (simp add: uploadPart_loop.simps[of env m ?pi partNum 1 w])
      with loop Some show False by simp
    qed
    with a(3) have a1: "reqs \<noteq> []" "hd reqs = ?pi" "int (length reqs) \<le> MaxRetries m"
      by simp_all
    show ?thesis
    proof (cases x)
      case (Inl err)
      with Some a1 a(5) ret show ?thesis by simp
    next
      case (Inr part)
      with Some a1 a(5) ret show ?thesis by simp
    qed
  qed
  have "\<exists>reqs. res m = Some r
        \<and> log w' = log w @ map CallUploadPart reqs
        \<and> ch w' = ch w @ map (\<lambda>n. Retry (currentPartNumber m) n (MaxRetries m))
                           [1..int (length reqs) - 1]
        \<and> (\<forall>q \<in> set reqs. upi_PartNumber q = partNum)
        \<and> ((MaxRetries m < 1 \<and> reqs = []
               \<and> ret = Inr (Inl (errors_New ''could not upload part'')))
           \<or> (reqs \<noteq> [] \<and> hd reqs = ?pi
               \<and> int (length reqs) = MaxRetries m
               \<and> (\<exists>err. ret = Inr (Inl err)
                    \<and> fst (snd (svc_UploadPart env (log w @ map CallUploadPart (butlast reqs))
                                  (last reqs))) = Some err))
           \<or> (reqs \<noteq> [] \<and> hd reqs = ?pi
               \<and> int (length reqs) \<le> MaxRetries m
               \<and> fst (snd (svc_UploadPart env (log w @ map CallUploadPart (butlast reqs))
                             (last reqs))) = None
               \<and> ret = Inr (Inr \<lparr>cp_ETag = upo_ETag (fst (svc_UploadPart env
                                    (log w @ map CallUploadPart (butlast reqs)) (last reqs))),
                                cp_PartNumber = partNum\<rparr>)))"
    using Some a(1) a(2)[unfolded idx] all last by (intro exI[of _ reqs] conjI)
  then show ?thesis by blast
qed

lemma run_loop_Cons_cases [consumes 1, case_names eof read_failed bounds create_failed part_panic part_failed continue]:
  assumes "run_loop env m tb ((chunk, err) # rd) w = ((out, w'), mf)"
  obtains
    "err = Some IoEOF" "finish env m tb w = (out, w')" "mf = m"
  | e where "err = Some e" "e \<noteq> IoEOF" "abort_and_report env m e w = (out, w')" "mf = m"
  | "err = None" "int (length chunk) > MaxPartSize m" "out = Panicked SliceBoundsOutOfRange"
      "w' = w" "mf = m"
  | e m1 w1 where "err = None" "int (length chunk) \<le> MaxPartSize m"
      "request_upload env m chunk w = (Some e, m1, w1)" "out = Returned" "w' = send (Error e) w1"
      "mf = m1"
  | p m1 w1 where "err = None" "int (length chunk) \<le> MaxPartSize m"
      "request_upload env m chunk w = (None, m1, w1)"
      "uploadPart env m1 chunk (currentPartNumber m1) w1 = (Inl p, w')" "out = Panicked p"
  | e m1 w1 w2 where "err = None" "int (length chunk) \<le> MaxPartSize m"
      "request_upload env m chunk w = (None, m1, w1)"
      "uploadPart env m1 chunk (currentPartNumber m1) w1 = (Inr (Inl e), w2)"
      "abort_and_report env m1 e w2 = (out, w')" "mf = m1"
  | part m1 w1 w2 where "err = None" "int (length chunk) \<le> MaxPartSize m"
      "request_upload env m chunk w = (None, m1, w1)"
      "uploadPart env m1 chunk (currentPartNumber m1) w1 = (Inr (Inr part), w2)"
      "run_loop env
         (m1\<lparr>completedParts := completedParts m1 @ [part],
             currentPartNumber := go_int (int_size env) (currentPartNumber m1 + 1)\<rparr>)
         (go_int (int_size env) (tb + int (length chunk))) rd
         (send (Progress (currentPartNumber m1) (int (length chunk))) w2) = ((out, w'), mf)"
proof (cases err)
  case (Some e)
  show ?thesis
  proof (cases "e = IoEOF")
    case True
    with Some assms have "finish env m tb w = (out, w')" "mf = m" by auto
    with Some True that(1) show ?thesis by blast
  next
    case False
    with Some assms have "abort_and_report env m e w = (out, w')" "mf = m" by auto
    with Some False that(2) show ?thesis by blast
  qed
next
  case None
  show ?thesis
  proof (cases "int (length chunk) > MaxPartSize m")
    case True
    with None assms have "out = Panicked SliceBoundsOutOfRange" "w' = w" "mf = m" by auto
    with None True that(3) show ?thesis by blast
  next
    case False
    then have le: "int (length chunk) \<le> MaxPartSize m" by simp
    obtain e m1 w1 where ru: "request_upload env m chunk w = (e, m1, w1)"
      by (cases "request_upload env m chunk w") blast
    show ?thesis
    proof (cases e)
      case (Some x)
      with None False ru assms have "out = Returned" "w' = send (Error x) w1" "mf = m1"
        by auto
      with None le ru Some that(4) show ?thesis by blast
    next
      case noerr: None
      obtain ret w2 where up: "uploadPart env m1 chunk (currentPartNumber m1) w1 = (ret, w2)"
        by (cases "uploadPart env m1 chunk (currentPartNumber m1) w1") blast
      show ?thesis
      proof (cases ret)
        case (Inl p)
        with None False ru noerr up assms have "out = Panicked p" "w' = w2" by auto
        with None le ru noerr up Inl that(5) show ?thesis by blast
      next
        case (Inr x)
        show ?thesis
        proof (cases x)
          case (Inl e2)
          with None False ru noerr up Inr assms
          have "abort_and_report env m1 e2 w2 = (out, w')" "mf = m1" by auto
          with None le ru noerr up Inr Inl that(6) show ?thesis by blast
        next
          case part: (Inr part)
          with None False ru noerr up Inr assms
          have "run_loop env
             (m1\<lparr>completedParts := completedParts m1 @ [part],
                 currentPartNumber := go_int (int_size env) (currentPartNumber m1 + 1)\<rparr>)
             (go_int (int_size env) (tb + int (length chunk))) rd
             (send (Progress (currentPartNumber m1) (int (length chunk))) w2) = ((out, w'), mf)"
            by simp
          with None le ru noerr up Inr part that(7) show ?thesis by blast
        qed
      qed
    qed
  qed
qed

lemma run_loop_Nil:
  "run_loop env m tb [] w = ((out, w'), mf) \<Longrightarrow> finish env m tb w = (out, w') \<and> mf = m"
  by auto

section \<open>Validation\<close>

lemma missing_fields_set_defaults: "missing_fields (set_defaults m) = missing_fields m"
  by (simp add: missing_fields_def set_defaults_def Let_def)

lemma missing_fields_reader_path: "missing_fields (m\<lparr>reader := rd, path := p\<rparr>) = missing_fields m"
  by (simp add: missing_fields_def)

lemma missing_fields_Nil:
  "missing_fields m = [] \<longleftrightarrow> AccessKey m \<noteq> [] \<and> SecretKey m \<noteq> [] \<and> Bucket m \<noteq> []"
  by (simp add: missing_fields_def)

lemma Send_missing:
  assumes "missing_fields m \<noteq> []"
  shows "Send env m rd p =
    (Returned, \<lparr>ch = [Error (GoError (''missing '' @ EnglishJoin (missing_fields m) True))], log = []\<rparr>)"
  using assms
  unfolding Send_def run_def Let_def missing_fields_set_defaults missing_fields_reader_path
  by (simp add: send_def w0_def errors_New_def)

lemma set_defaults_fields [simp]:
  "res (set_defaults m) = res m"
  "completedParts (set_defaults m) = completedParts m"
  "Bucket (set_defaults m) = Bucket m"
  "AccessKey (set_defaults m) = AccessKey m"
  "SecretKey (set_defaults m) = SecretKey m"
  "path (set_defaults m) = path m"
  "reader (set_defaults m) = reader m"
  "MaxRetries (set_defaults m) = (if MaxRetries m = 0 then 3 else MaxRetries m)"
  "MaxPartSize (set_defaults m) = (if MaxPartSize m = 0 then 5242880 else MaxPartSize m)"
  by (simp_all add: set_defaults_def Let_def Megabyte_def Kilobyte_def)

lemma Send_valid:
  assumes "missing_fields m = []"
  shows "Send env m rd p =
    (if MaxPartSize (set_defaults m) < 0 \<or> make_limit env < MaxPartSize (set_defaults m)
     then (Panicked MakesliceLenOutOfRange, w0)
     else fst (run_loop env
                 ((set_defaults (m\<lparr>reader := rd, path := p\<rparr>))\<lparr>currentPartNumber := 1\<rparr>) 0 rd w0))"
  using assms
  unfolding Send_def run_def Let_def missing_fields_set_defaults missing_fields_reader_path
  by simp

lemma Send_cases:
  obtains "missing_fields m \<noteq> []"
      "Send env m rd p =
        (Returned, \<lparr>ch = [Error (GoError (''missing '' @ EnglishJoin (missing_fields m) True))], log = []\<rparr>)"
  | "missing_fields m = []"
      "MaxPartSize (set_defaults m) < 0 \<or> make_limit env < MaxPartSize (set_defaults m)"
      "Send env m rd p = (Panicked MakesliceLenOutOfRange, w0)"
  | "missing_fields m = []" "0 < MaxPartSize (set_defaults m)"
      "MaxPartSize (set_defaults m) \<le> make_limit env"
      "Send env m rd p =
         fst (run_loop env
                ((set_defaults (m\<lparr>reader := rd, path := p\<rparr>))\<lparr>currentPartNumber := 1\<rparr>) 0 rd w0)"
proof (cases "missing_fields m = []")
  case False
  with that(1) Send_missing[OF False] show ?thesis by blast
next
  case True
  have nz: "MaxPartSize (set_defaults m) \<noteq> 0" by simp
  show ?thesis
  proof (cases "MaxPartSize (set_defaults m) < 0 \<or> make_limit env < MaxPartSize (set_defaults m)")
    case bad: True
    with that(2) True Send_valid[OF True, of env rd p] show ?thesis by simp
  next
    case False
    with nz have "0 < MaxPartSize (set_defaults m)" "MaxPartSize (set_defaults m) \<le> make_limit env"
      by linarith+
    with that(3) True False Send_valid[OF True, of env rd p] show ?thesis by simp
  qed
qed

text \<open>The definitions a run on a concrete input unfolds.\<close>

lemmas eval_defs = Send_def after_Send_def run_def set_defaults_def missing_fields_def Megabyte_def
  Kilobyte_def w0_def request_upload_def uploadPart_def finish_def complete_def send_def
  called_def Let_def DefaultRegion_def abort_and_report_def Abort_def errors_New_def
  upload_and_abort_error_def EnglishJoin_def uploadPart_loop.simps example_env_def
  example_upload_def complete_fails_env_def flaky_env_def example_env_386_def
  example_session_def part_input_def go_int_def

text \<open>
  C5. If any of AccessKey, SecretKey and Bucket is empty, the channel carries exactly one
  event, an Error whose message is "missing " followed by the names of the empty fields
  joined by \<open>EnglishJoin\<close>, and no request is sent to the service. The messages are
  written out for each set of empty fields; with AccessKey and Bucket empty the message is
  "missing AccessKey and Bucket".
\<close>

theorem missing_fields_reported:
  assumes "AccessKey m = [] \<or> SecretKey m = [] \<or> Bucket m = []"
  shows "Send env m rd p =
      (Returned,
       \<lparr>ch = [Error (GoError (''missing '' @ EnglishJoin (missing_fields m) True))], log = []\<rparr>)
    \<and> EnglishJoin (missing_fields m) True =
        (if AccessKey m = [] then
           (if SecretKey m = [] then
              (if Bucket m = [] then ''AccessKey, SecretKey and Bucket''
               else ''AccessKey and SecretKey'')
            else (if Bucket m = [] then ''AccessKey and Bucket'' else ''AccessKey''))
         else
           (if SecretKey m = [] then
              (if Bucket m = [] then ''SecretKey and Bucket'' else ''SecretKey'')
            else ''Bucket''))"
proof -
  have "missing_fields m \<noteq> []"
    using assms by (simp add: missing_fields_Nil)
  then have first: "Send env m rd p =
      (Returned,
       \<lparr>ch = [Error (GoError (''missing '' @ EnglishJoin (missing_fields m) True))], log = []\<rparr>)"
    by (rule Send_missing)
  have second: "EnglishJoin (missing_fields m) True =
        (if AccessKey m = [] then
           (if SecretKey m = [] then
              (if Bucket m = [] then ''AccessKey, SecretKey and Bucket''
               else ''AccessKey and SecretKey'')
            else (if Bucket m = [] then ''AccessKey and Bucket'' else ''AccessKey''))
         else
           (if SecretKey m = [] then
              (if Bucket m = [] then ''SecretKey and Bucket'' else ''SecretKey'')
            else ''Bucket''))"
    using assms by (auto simp add: missing_fields_def EnglishJoin_def)
  from first second show ?thesis by (rule conjI)
qed

theorem missing_fields_reported_witness:
  "(AccessKey (example_upload\<lparr>AccessKey := [], Bucket := []\<rparr>) = []
      \<or> SecretKey (example_upload\<lparr>AccessKey := [], Bucket := []\<rparr>) = []
      \<or> Bucket (example_upload\<lparr>AccessKey := [], Bucket := []\<rparr>) = [])
   \<and> Send example_env (example_upload\<lparr>AccessKey := [], Bucket := []\<rparr>) [([1, 2], None)] ''k'' =
       (Returned, \<lparr>ch = [Error (GoError ''missing AccessKey and Bucket'')], log = []\<rparr>)"
proof -
  have h: "AccessKey (example_upload\<lparr>AccessKey := [], Bucket := []\<rparr>) = []
      \<or> SecretKey (example_upload\<lparr>AccessKey := [], Bucket := []\<rparr>) = []
      \<or> Bucket (example_upload\<lparr>AccessKey := [], Bucket := []\<rparr>) = []"
    by simp
  from missing_fields_reported [OF h, of example_env "[([1, 2], None)]" "''k''"]
  show ?thesis by (simp add: example_upload_def)
qed

section \<open>The terminal event\<close>

text \<open>
  C1. Every invocation of Send emits exactly one terminal event, which is the last one; in
  particular a failed completion request gives a single Error and no Complete after it.
  The code does otherwise: the branch \<open>if err != nil\<close> after \<open>m.complete()\<close> sends the
  Error and does not return, so the Complete that follows it is sent as well. Here the
  service accepts the session and the part and rejects the completion request; the channel
  carries the Progress of the part, the Error, and then a Complete.
\<close>

theorem complete_failure_sends_Error_then_Complete:
  "Send complete_fails_env example_upload [([1, 2], None)] ''k'' =
    (Returned,
     \<lparr>ch = [Progress 1 2, Error (GoError ''InternalError''),
            Complete 2 \<lparr>cco_Location = None, cco_ETag = None\<rparr>],
      log = [CallCreate \<lparr>cmi_Bucket = ''b'', cmi_Key = ''k'',
                         cmi_ContentType = ''application/octet-stream''\<rparr>,
             CallUploadPart (part_input example_session [1, 2] 1),
             CallComplete \<lparr>cci_Bucket = Some ''b'', cci_Key = Some ''k'', cci_UploadId = Some ''id'',
                           cci_Parts = [\<lparr>cp_ETag = Some ''etag'', cp_PartNumber = 1\<rparr>]\<rparr>]\<rparr>)"
  by (simp add: eval_defs)

section \<open>Failures of the reader\<close>

text \<open>
  C3. A failed read (other than end of stream) or a part out of attempts leads to Abort and
  then to the terminal Error. The code does otherwise when the first read fails: no session
  has been requested yet, \<open>m.res\<close> is nil, and \<open>Abort\<close> dereferences it while it builds its
  request. The goroutine panics; no abort request is sent and no Error event is emitted.
\<close>

theorem first_read_failure_panics_in_Abort:
  "Send example_env example_upload [([], Some (GoError ''connection reset''))] ''k'' =
    (Panicked NilDereference, \<lparr>ch = [], log = []\<rparr>)"
  by (simp add: eval_defs)

text \<open>
  Once a session exists the block does what C3 describes: one abort request, then one Error
  that carries the cause alone when the abort succeeded and the combined message when
  it failed.
\<close>

lemma abort_and_report_with_session:
  assumes "res m = Some r"
  shows "abort_and_report env m err w =
     (Returned,
      send (Error (case svc_AbortMultipartUpload env (log w)
                          \<lparr>ami_Bucket = cmo_Bucket r, ami_Key = cmo_Key r,
                           ami_UploadId = cmo_UploadId r\<rparr> of
                     None \<Rightarrow> err
                   | Some abortErr \<Rightarrow>
                       GoError (''upload error: '' @ error_string err
                                @ '', as well as an error aborting the upload: ''
                                @ error_string abortErr)))
        (called (CallAbort \<lparr>ami_Bucket = cmo_Bucket r, ami_Key = cmo_Key r,
                            ami_UploadId = cmo_UploadId r\<rparr>) w))"
  using assms
  by (simp add: abort_and_report_def Abort_def Let_def upload_and_abort_error_def
           split: option.splits)

section \<open>The attempts of uploadPart\<close>

text \<open>
  C10. With MaxRetries at least 1 the loop of \<open>uploadPart\<close>, entered with \<open>tryNum = 1\<close>,
  is left through one of its \<open>return\<close> statements: the statement after the loop, which
  returns "could not upload part", is not reached. (The loop function is total: its
  termination is proved with the measure \<open>MaxRetries - tryNum\<close>.)
\<close>

theorem uploadPart_loop_returns:
  assumes "1 \<le> MaxRetries m"
  shows "\<exists>ret. fst (uploadPart_loop env m partInput partNum 1 w) = Some ret"
proof -
  obtain lret w' where l: "uploadPart_loop env m partInput partNum 1 w = (lret, w')"
    by (cases "uploadPart_loop env m partInput partNum 1 w") blast
  from uploadPart_loop_shape[OF l] assms have "lret \<noteq> None"
    by (auto split: option.splits)
  with l show ?thesis by auto
qed

theorem uploadPart_loop_returns_witness:
  "1 \<le> MaxRetries (example_upload\<lparr>MaxRetries := 3\<rparr>)
   \<and> fst (uploadPart_loop flaky_env (example_upload\<lparr>MaxRetries := 3\<rparr>)
            (part_input example_session [1, 2] 1) 1 1
            \<lparr>ch = [], log = [CallCreate \<lparr>cmi_Bucket = ''b'', cmi_Key = ''k'',
                                        cmi_ContentType = ''application/octet-stream''\<rparr>]\<rparr>)
     = Some (Inr \<lparr>cp_ETag = Some ''etag'', cp_PartNumber = 1\<rparr>)"
  using uploadPart_loop_returns[of "example_upload\<lparr>MaxRetries := 3\<rparr>" flaky_env
      "part_input example_session [1, 2] 1" 1
      "\<lparr>ch = [], log = [CallCreate \<lparr>cmi_Bucket = ''b'', cmi_Key = ''k'',
                                    cmi_ContentType = ''application/octet-stream''\<rparr>]\<rparr>"]
  by (simp add: eval_defs)

section \<open>Arithmetic of int\<close>



lemma go_int_add_left: "go_int s (go_int s a + b) = go_int s (a + b)"
proof -
  have "(go_int s a + b + 2 ^ (int_bits s - 1)) mod 2 ^ int_bits s
      = ((a + 2 ^ (int_bits s - 1)) mod 2 ^ int_bits s + b) mod 2 ^ int_bits s"
    by (simp add: go_int_def)
  also have "\<dots> = (a + 2 ^ (int_bits s - 1) + b) mod 2 ^ int_bits s"
    by (rule mod_add_left_eq)
  also have "\<dots> = (a + b + 2 ^ (int_bits s - 1)) mod 2 ^ int_bits s"
    by (simp add: ac_simps)
  finally show ?thesis by (simp add: go_int_def)
qed


section \<open>One iteration of the loop\<close>

lemma res_update_same: "res m = Some r \<Longrightarrow> m\<lparr>res := Some r\<rparr> = m"
  by (cases m) simp

lemma request_upload_None:
  assumes "request_upload env m chunk w = (None, m1, w1)"
  shows "\<exists>r. m1 = m\<lparr>res := Some r\<rparr> \<and> ch w1 = ch w
    \<and> log w1 = log w
          @ (if res m = None
             then [CallCreate \<lparr>cmi_Bucket = Bucket m, cmi_Key = path m,
                               cmi_ContentType = DetectContentType env chunk\<rparr>]
             else [])"
proof (cases "res m")
  case None
  with request_upload_cases[OF assms] show ?thesis by auto
next
  case (Some r)
  with request_upload_cases[OF assms] have "m1 = m" "w1 = w" by auto
  with Some res_update_same[OF Some] show ?thesis
    by (intro exI[of _ r]) simp
qed

lemma request_then_uploadPart:
  assumes "request_upload env m chunk w = (None, m1, w1)"
    and "uploadPart env m1 chunk (currentPartNumber m1) w1 = (ret, w2)"
  shows "\<exists>r reqs. m1 = m\<lparr>res := Some r\<rparr>
      \<and> ch w2 = ch w @ map (\<lambda>n. Retry (currentPartNumber m) n (MaxRetries m))
                         [1..int (length reqs) - 1]
      \<and> log w2 = log w
          @ (if res m = None
             then [CallCreate \<lparr>cmi_Bucket = Bucket m, cmi_Key = path m,
                               cmi_ContentType = DetectContentType env chunk\<rparr>]
             else [])
          @ map CallUploadPart reqs
      \<and> (\<forall>q \<in> set reqs. upi_PartNumber q = currentPartNumber m)
      \<and> ((MaxRetries m < 1 \<and> reqs = [] \<and> ret = Inr (Inl (errors_New ''could not upload part'')))
         \<or> (reqs \<noteq> [] \<and> hd reqs = part_input r chunk (currentPartNumber m)
             \<and> int (length reqs) = MaxRetries m \<and> (\<exists>err. ret = Inr (Inl err)))
         \<or> (reqs \<noteq> [] \<and> hd reqs = part_input r chunk (currentPartNumber m)
             \<and> int (length reqs) \<le> MaxRetries m
             \<and> (\<exists>part. ret = Inr (Inr part) \<and> cp_PartNumber part = currentPartNumber m)))"
proof -
  from request_upload_None[OF assms(1)]
  obtain r where r: "m1 = m\<lparr>res := Some r\<rparr>" "ch w1 = ch w"
    "log w1 = log w
          @ (if res m = None
             then [CallCreate \<lparr>cmi_Bucket = Bucket m, cmi_Key = path m,
                               cmi_ContentType = DetectContentType env chunk\<rparr>]
             else [])"
    by blast
  have m1: "res m1 = Some r" "currentPartNumber m1 = currentPartNumber m" "MaxRetries m1 = MaxRetries m"
    using r(1) by simp_all
  from uploadPart_cases[OF assms(2)] m1
  obtain reqs where a:
    "log w2 = log w1 @ map CallUploadPart reqs"
    "ch w2 = ch w1 @ map (\<lambda>n. Retry (currentPartNumber m) n (MaxRetries m))
                        [1..int (length reqs) - 1]"
    "\<forall>q \<in> set reqs. upi_PartNumber q = currentPartNumber m"
    "(MaxRetries m < 1 \<and> reqs = [] \<and> ret = Inr (Inl (errors_New ''could not upload part'')))
         \<or> (reqs \<noteq> [] \<and> hd reqs = part_input r chunk (currentPartNumber m)
             \<and> int (length reqs) = MaxRetries m \<and> (\<exists>err. ret = Inr (Inl err)))
         \<or> (reqs \<noteq> [] \<and> hd reqs = part_input r chunk (currentPartNumber m)
             \<and> int (length reqs) \<le> MaxRetries m
             \<and> (\<exists>part. ret = Inr (Inr part) \<and> cp_PartNumber part = currentPartNumber m))"
    by (elim disjE exE conjE) simp_all
  show ?thesis
    by (rule exI[of _ r], rule exI[of _ reqs]) (use r a in simp)
qed

lemma request_then_uploadPart_events:
  assumes "request_upload env m chunk w = (None, m1, w1)"
    and "uploadPart env m1 chunk (currentPartNumber m1) w1 = (ret, w2)"
  shows "\<exists>r k. m1 = m\<lparr>res := Some r\<rparr>
      \<and> ch w2 = ch w @ map (\<lambda>n. Retry (currentPartNumber m) n (MaxRetries m)) [1..k]"
  using request_then_uploadPart[OF assms] by blast

section \<open>Empty input\<close>

text \<open>
  C9. On an empty input (the first read returns end of stream, or the reader is exhausted
  from the start) of an upload whose configuration is valid, whose part size is one the
  platform can allocate a buffer for, and whose session descriptor \<open>m.res\<close> is still nil,
  \<open>run\<close> leaves the loop and calls \<open>complete\<close>, which dereferences the nil descriptor: the
  goroutine panics, no event at all is sent and no request reaches the service.
\<close>

theorem empty_input_panics:
  assumes "AccessKey m \<noteq> []" "SecretKey m \<noteq> []" "Bucket m \<noteq> []"
    and "0 \<le> MaxPartSize m" and "MaxPartSize (set_defaults m) \<le> make_limit env"
    and "res m = None"
    and "rd = [] \<or> (\<exists>bytes rest. rd = (bytes, Some IoEOF) # rest)"
  shows "Send env m rd p = (Panicked NilDereference, \<lparr>ch = [], log = []\<rparr>)"
proof -
  have "missing_fields m = []"
    using assms(1-3) by (simp add: missing_fields_Nil)
  note S = Send_valid[OF this, of env rd p]
  let ?m = "(set_defaults (m\<lparr>reader := rd, path := p\<rparr>))\<lparr>currentPartNumber := 1\<rparr>"
  have "res ?m = None"
    using assms(6) by simp
  then have f: "finish env ?m 0 w0 = (Panicked NilDereference, w0)"
    by (simp add: finish_def complete_def)
  have "fst (run_loop env ?m 0 rd w0) = finish env ?m 0 w0"
    using assms(7) by auto
  with S f assms(4,5) show ?thesis
    by (simp add: w0_def)
qed

theorem empty_input_panics_witness:
  "AccessKey example_upload \<noteq> [] \<and> SecretKey example_upload \<noteq> []
   \<and> Bucket example_upload \<noteq> [] \<and> 0 \<le> MaxPartSize example_upload
   \<and> MaxPartSize (set_defaults example_upload) \<le> make_limit example_env
   \<and> res example_upload = None
   \<and> Send example_env example_upload [([], Some IoEOF)] ''k'' =
       (Panicked NilDereference, \<lparr>ch = [], log = []\<rparr>)"
proof -
  have h: "AccessKey example_upload \<noteq> []" "SecretKey example_upload \<noteq> []"
    "Bucket example_upload \<noteq> []" "0 \<le> MaxPartSize example_upload"
    "MaxPartSize (set_defaults example_upload) \<le> make_limit example_env"
    "res example_upload = None"
    by (simp_all add: example_upload_def example_env_def set_defaults_def Megabyte_def Kilobyte_def)
  have r: "[([], Some IoEOF)] = []
      \<or> (\<exists>bytes rest. [([], Some IoEOF)] = (bytes::byte list, Some IoEOF) # rest)"
    by simp
  from empty_input_panics[OF h r, of "''k''"] h show ?thesis
    by simp
qed

section \<open>Bytes reported\<close>

text \<open>
  What the loop keeps: \<open>totalBytes\<close> is the sum of the bytes of the Progress events sent so
  far, reduced to the range of \<open>int\<close>. A Complete event carries that value.
\<close>

lemma run_loop_bytes:
  assumes "run_loop env m tb rd w = ((out, w'), mf)"
    and "completes (ch w) = []"
    and "tb = go_int (int_size env) (sum_list (map snd (progress (ch w))))"
  shows "completes (ch w') = []
       \<or> completes (ch w') = [go_int (int_size env) (sum_list (map snd (progress (ch w'))))]"
  using assms
proof (induction rd arbitrary: m tb w)
  case Nil
  then have "finish env m tb w = (out, w')" by auto
  from finish_cases[OF this] Nil.prems(2,3) show ?case
    by (auto split: option.splits)
next
  case (Cons x rd)
  obtain chunk err where x: "x = (chunk, err)" by (cases x)
  from Cons.prems(1)[unfolded x] show ?case
  proof (cases rule: run_loop_Cons_cases)
    case eof
    from finish_cases[OF eof(2)] Cons.prems(2,3) show ?thesis
      by (auto split: option.splits)
  next
    case (read_failed e)
    from abort_and_report_cases[OF read_failed(3)] Cons.prems(2) show ?thesis
      by auto
  next
    case bounds
    with Cons.prems(2) show ?thesis by simp
  next
    case (create_failed e m1 w1)
    from request_upload_cases[OF create_failed(3)] create_failed(5) Cons.prems(2)
    show ?thesis by auto
  next
    case (part_panic p m1 w1)
    from request_then_uploadPart_events[OF part_panic(3,4)] Cons.prems(2) show ?thesis
      by auto
  next
    case (part_failed e m1 w1 w2)
    from request_then_uploadPart_events[OF part_failed(3,4)] Cons.prems(2)
    have "completes (ch w2) = []" by auto
    with abort_and_report_cases[OF part_failed(5)] show ?thesis
      by auto
  next
    case (continue part m1 w1 w2)
    from request_then_uploadPart_events[OF continue(3,4)] obtain r k where
      ch2: "ch w2 = ch w @ map (\<lambda>n. Retry (currentPartNumber m) n (MaxRetries m)) [1..k]"
      and m1: "m1 = m\<lparr>res := Some r\<rparr>"
      by blast
    let ?w = "send (Progress (currentPartNumber m1) (int (length chunk))) w2"
    have c: "completes (ch ?w) = []" using ch2 Cons.prems(2) by simp
    have "sum_list (map snd (progress (ch ?w)))
        = sum_list (map snd (progress (ch w))) + int (length chunk)"
      using ch2 by simp
    then have s: "go_int (int_size env) (tb + int (length chunk))
        = go_int (int_size env) (sum_list (map snd (progress (ch ?w))))"
      using Cons.prems(3) by (simp add: go_int_add_left)
    from Cons.IH[OF continue(5) c s] show ?thesis .
  qed
qed

lemma Complete_in_completes: "Complete b r \<in> set evs \<Longrightarrow> b \<in> set (completes evs)"
  by (induction evs) (auto simp: completes_def)

lemma Complete_bytes_wrapped:
  assumes "Complete b r \<in> set (ch (snd (Send env m rd p)))"
  shows "b = go_int (int_size env) (sum_list (map snd (progress (ch (snd (Send env m rd p))))))"
proof (cases rule: Send_cases[of m env rd p])
  case 1
  with assms show ?thesis by simp
next
  case 2
  with assms show ?thesis by (simp add: w0_def)
next
  case 3
  let ?m = "(set_defaults (m\<lparr>reader := rd, path := p\<rparr>))\<lparr>currentPartNumber := 1\<rparr>"
  obtain out w mf where run: "run_loop env ?m 0 rd w0 = ((out, w), mf)"
    by (cases "run_loop env ?m 0 rd w0") auto
  have z: "0 = go_int (int_size env) (sum_list (map snd (progress (ch w0))))"
    by (cases "int_size env") (simp_all add: w0_def go_int_def)
  have "completes (ch w) = []
      \<or> completes (ch w) = [go_int (int_size env) (sum_list (map snd (progress (ch w))))]"
    by (rule run_loop_bytes[OF run _ z]) (simp add: w0_def)
  moreover have "b \<in> set (completes (ch w))"
    using assms 3(4) run by (simp add: Complete_in_completes)
  ultimately show ?thesis using 3(4) run by auto
qed

text \<open>
  C7. For every successful upload, the Bytes fields of the Progress events add up to the
  Bytes field of the Complete event. The code does otherwise where \<open>int\<close> has 32 bits
  (the 386 builds): \<open>totalBytes\<close> is an \<open>int\<close> and \<open>totalBytes += n\<close> wraps. Here a reader
  delivers four chunks of 512 MiB to an upload with that part size: the four Progress
  events carry 2147483648 bytes together, the upload succeeds, and the Complete event
  reports - 2147483648 bytes.
\<close>

theorem total_bytes_wrap_on_386:
  "fst (Send example_env_386 (example_upload\<lparr>MaxPartSize := 536870912\<rparr>)
          [(replicate 536870912 0, None), (replicate 536870912 0, None),
           (replicate 536870912 0, None), (replicate 536870912 0, None)] ''k'') = Returned
   \<and> ch (snd (Send example_env_386 (example_upload\<lparr>MaxPartSize := 536870912\<rparr>)
          [(replicate 536870912 0, None), (replicate 536870912 0, None),
           (replicate 536870912 0, None), (replicate 536870912 0, None)] ''k''))
     = [Progress 1 536870912, Progress 2 536870912, Progress 3 536870912,
        Progress 4 536870912,
        Complete (- 2147483648) \<lparr>cco_Location = None, cco_ETag = None\<rparr>]
   \<and> sum_list (map snd (progress (ch (snd (Send example_env_386
          (example_upload\<lparr>MaxPartSize := 536870912\<rparr>)
          [(replicate 536870912 0, None), (replicate 536870912 0, None),
           (replicate 536870912 0, None), (replicate 536870912 0, None)] ''k'')))))
     = 2147483648"
  by (simp add: eval_defs)

section \<open>Retry events\<close>

text \<open>
  With MaxRetries at least 1, a call of \<open>uploadPart\<close> for the current part (as \<open>run\<close> makes
  it, with a session present) sends between 1 and MaxRetries requests, all for that part,
  and nothing else; the first carries the whole chunk. It sends one Retry event for each
  request but the last, numbered from 1, carrying the part number and MaxRetries. Either
  the last request succeeded and the completed part is returned, or MaxRetries requests
  were sent and the failure of the last one is returned.
\<close>

lemma uploadPart_attempts:
  assumes "1 \<le> MaxRetries m" and "res m = Some r" and "partNum = currentPartNumber m"
    and "uploadPart env m chunk partNum w = (ret, w')"
  shows "\<exists>reqs. reqs \<noteq> [] \<and> int (length reqs) \<le> MaxRetries m
        \<and> hd reqs = part_input r chunk partNum
        \<and> (\<forall>q \<in> set reqs. upi_PartNumber q = partNum)
        \<and> log w' = log w @ map CallUploadPart reqs
        \<and> ch w' = ch w @ map (\<lambda>n. Retry partNum n (MaxRetries m)) [1..int (length reqs) - 1]
        \<and> ((int (length reqs) = MaxRetries m
               \<and> (\<exists>err. ret = Inr (Inl err)
                    \<and> fst (snd (svc_UploadPart env (log w @ map CallUploadPart (butlast reqs))
                                  (last reqs))) = Some err))
           \<or> (fst (snd (svc_UploadPart env (log w @ map CallUploadPart (butlast reqs))
                             (last reqs))) = None
               \<and> ret = Inr (Inr \<lparr>cp_ETag = upo_ETag (fst (svc_UploadPart env
                                    (log w @ map CallUploadPart (butlast reqs)) (last reqs))),
                                cp_PartNumber = partNum\<rparr>)))"
proof -
  from uploadPart_cases[OF assms(4)] assms(1,2) obtain reqs where
    "log w' = log w @ map CallUploadPart reqs"
    "ch w' = ch w @ map (\<lambda>n. Retry (currentPartNumber m) n (MaxRetries m))
                           [1..int (length reqs) - 1]"
    "\<forall>q \<in> set reqs. upi_PartNumber q = partNum"
    "reqs \<noteq> []" "hd reqs = part_input r chunk partNum" "int (length reqs) \<le> MaxRetries m"
    "(int (length reqs) = MaxRetries m
               \<and> (\<exists>err. ret = Inr (Inl err)
                    \<and> fst (snd (svc_UploadPart env (log w @ map CallUploadPart (butlast reqs))
                                  (last reqs))) = Some err))
           \<or> (fst (snd (svc_UploadPart env (log w @ map CallUploadPart (butlast reqs))
                             (last reqs))) = None
               \<and> ret = Inr (Inr \<lparr>cp_ETag = upo_ETag (fst (svc_UploadPart env
                                    (log w @ map CallUploadPart (butlast reqs)) (last reqs))),
                                cp_PartNumber = partNum\<rparr>))"
    by (elim disjE exE conjE) simp_all
  then show ?thesis
    unfolding assms(3)[symmetric]
    by (intro exI[of _ reqs]) simp
qed

text \<open>
  C4. \<open>uploadPart\<close> performs up to MaxRetries attempts and, when the final attempt fails,
  returns the underlying failure. The code does otherwise when MaxRetries is negative
  (\<open>run\<close> replaces only the value 0 by 3): the loop of \<open>uploadPart\<close> is not entered and the
  return under the comment "This should never happen" is executed. No attempt is made
  although the service would accept the part, the failure returned is "could not upload
  part" and not the failure of an attempt, the upload is aborted, and the number of Retry
  events for the part, zero, is not at most MaxRetries - 1.
\<close>

theorem negative_MaxRetries_no_attempt:
  "Send example_env (example_upload\<lparr>MaxRetries := - 1\<rparr>) [([1, 2], None)] ''k'' =
     (Returned,
      \<lparr>ch = [Error (GoError ''could not upload part'')],
       log = [CallCreate \<lparr>cmi_Bucket = ''b'', cmi_Key = ''k'',
                          cmi_ContentType = ''application/octet-stream''\<rparr>,
              CallAbort \<lparr>ami_Bucket = Some ''b'', ami_Key = Some ''k'',
                         ami_UploadId = Some ''id''\<rparr>]\<rparr>)
   \<and> \<not> int (length [x \<leftarrow> retries (ch (snd (Send example_env
             (example_upload\<lparr>MaxRetries := - 1\<rparr>) [([1, 2], None)] ''k''))). fst x = 1])
         \<le> MaxRetries (set_defaults (example_upload\<lparr>MaxRetries := - 1\<rparr>)) - 1"
  by (simp add: eval_defs)

section \<open>Part numbers\<close>

text \<open>
  C8. The list of completed parts handed to the completion request is always sorted by
  ascending part number. The code does otherwise on the second \<open>Send\<close> of a
  \<open>MultipartUpload\<close>: \<open>Send\<close> takes the reader and the path of each upload, and \<open>run\<close>
  sets \<open>currentPartNumber\<close> back to 1 but leaves \<open>completedParts\<close> and \<open>res\<close> as the
  previous upload left them. Here a first upload of two parts succeeds and leaves its
  session and its two parts in the structure; the second upload, of one part to another
  path, requests no session of its own and completes the session of the first with parts
  numbered 1, 2, 1.
\<close>

theorem second_Send_parts_not_ascending:
  "Send example_env example_upload [([1, 2], None), ([3], None)] ''k''
     = (Returned,
        \<lparr>ch = [Progress 1 2, Progress 2 1, Complete 3 \<lparr>cco_Location = None, cco_ETag = None\<rparr>],
         log = [CallCreate \<lparr>cmi_Bucket = ''b'', cmi_Key = ''k'',
                            cmi_ContentType = ''application/octet-stream''\<rparr>,
                CallUploadPart (part_input example_session [1, 2] 1),
                CallUploadPart (part_input example_session [3] 2),
                CallComplete
                  \<lparr>cci_Bucket = Some ''b'', cci_Key = Some ''k'', cci_UploadId = Some ''id'',
                   cci_Parts = [\<lparr>cp_ETag = Some ''etag'', cp_PartNumber = 1\<rparr>,
                                \<lparr>cp_ETag = Some ''etag'', cp_PartNumber = 2\<rparr>]\<rparr>]\<rparr>)
   \<and> res (after_Send example_env example_upload [([1, 2], None), ([3], None)] ''k'')
     = Some example_session
   \<and> completedParts (after_Send example_env example_upload [([1, 2], None), ([3], None)] ''k'')
     = [\<lparr>cp_ETag = Some ''etag'', cp_PartNumber = 1\<rparr>,
        \<lparr>cp_ETag = Some ''etag'', cp_PartNumber = 2\<rparr>]
   \<and> Send example_env
        (after_Send example_env example_upload [([1, 2], None), ([3], None)] ''k'')
        [([4], None)] ''k2''
     = (Returned,
        \<lparr>ch = [Progress 1 1, Complete 1 \<lparr>cco_Location = None, cco_ETag = None\<rparr>],
         log = [CallUploadPart (part_input example_session [4] 1),
                CallComplete
                  \<lparr>cci_Bucket = Some ''b'', cci_Key = Some ''k'', cci_UploadId = Some ''id'',
                   cci_Parts = [\<lparr>cp_ETag = Some ''etag'', cp_PartNumber = 1\<rparr>,
                                \<lparr>cp_ETag = Some ''etag'', cp_PartNumber = 2\<rparr>,
                                \<lparr>cp_ETag = Some ''etag'', cp_PartNumber = 1\<rparr>]\<rparr>]\<rparr>)
   \<and> map (\<lambda>c. sorted (map cp_PartNumber (cci_Parts c)))
        (completions (log (snd (Send example_env
           (after_Send example_env example_upload [([1, 2], None), ([3], None)] ''k'')
           [([4], None)] ''k2''))))
     = [False]"
  by (simp add: eval_defs)

section \<open>The session request\<close>

lemma run_loop_no_create:
  assumes "run_loop env m tb rd w = ((out, w'), mf)" and "res m \<noteq> None"
  shows "\<exists>calls. log w' = log w @ calls \<and> created calls = []"
  using assms
proof (induction rd arbitrary: m tb w)
  case Nil
  then have "finish env m tb w = (out, w')" by auto
  from finish_cases[OF this] show ?case
    by auto
next
  case (Cons x rd)
  obtain chunk err where x: "x = (chunk, err)" by (cases x)
  from Cons.prems(1)[unfolded x] show ?case
  proof (cases rule: run_loop_Cons_cases)
    case eof
    from finish_cases[OF eof(2)] show ?thesis
      by auto
  next
    case (read_failed e)
    from abort_and_report_cases[OF read_failed(3)] show ?thesis
      by auto
  next
    case bounds
    then show ?thesis by simp
  next
    case (create_failed e m1 w1)
    from request_upload_cases[OF create_failed(3)] Cons.prems(2)
    show ?thesis by auto
  next
    case (part_panic p m1 w1)
    from request_then_uploadPart[OF part_panic(3,4)] Cons.prems(2) show ?thesis
      by auto
  next
    case (part_failed e m1 w1 w2)
    from request_then_uploadPart[OF part_failed(3,4)] Cons.prems(2) obtain r reqs where
      m1: "m1 = m\<lparr>res := Some r\<rparr>"
      and lg: "log w2 = log w @ map CallUploadPart reqs"
      by auto
    from abort_and_report_cases[OF part_failed(5)] m1
    obtain c where "log w' = log w2 @ [CallAbort c]"
      by auto
    with lg show ?thesis by simp
  next
    case (continue part m1 w1 w2)
    from request_then_uploadPart[OF continue(3,4)] Cons.prems(2) obtain r reqs where
      m1: "m1 = m\<lparr>res := Some r\<rparr>"
      and lg: "log w2 = log w @ map CallUploadPart reqs"
      by auto
    let ?m = "m1\<lparr>completedParts := completedParts m1 @ [part],
                  currentPartNumber := go_int (int_size env) (currentPartNumber m1 + 1)\<rparr>"
    let ?w = "send (Progress (currentPartNumber m1) (int (length chunk))) w2"
    have "res ?m \<noteq> None" using m1 by simp
    from Cons.IH[OF continue(5) this] obtain calls where
      "log w' = log ?w @ calls" "created calls = []"
      by blast
    with lg show ?thesis by simp
  qed
qed

lemma run_loop_first_read:
  assumes "run_loop env m tb ((chunk, None) # rd) w = ((out, w'), mf)"
    and "res m = None" and "int (length chunk) \<le> MaxPartSize m"
  shows "\<exists>calls. log w' = log w @ CallCreate \<lparr>cmi_Bucket = Bucket m, cmi_Key = path m,
                               cmi_ContentType = DetectContentType env chunk\<rparr> # calls
          \<and> created calls = []"
  using assms(1)
proof (cases rule: run_loop_Cons_cases)
  case (create_failed e m1 w1)
  from request_upload_cases[OF create_failed(3)] assms(2) create_failed(5)
  show ?thesis by auto
next
  case (part_panic p m1 w1)
  from request_then_uploadPart[OF part_panic(3,4)] assms(2) show ?thesis
    by auto
next
  case (part_failed e m1 w1 w2)
  from request_then_uploadPart[OF part_failed(3,4)] assms(2) obtain r reqs where
    m1: "m1 = m\<lparr>res := Some r\<rparr>"
    and lg: "log w2 = log w @ CallCreate \<lparr>cmi_Bucket = Bucket m, cmi_Key = path m,
                               cmi_ContentType = DetectContentType env chunk\<rparr>
               # map CallUploadPart reqs"
    by auto
  from abort_and_report_cases[OF part_failed(5)] m1
  obtain c where "log w' = log w2 @ [CallAbort c]"
    by auto
  with lg show ?thesis by simp
next
  case (continue part m1 w1 w2)
  from request_then_uploadPart[OF continue(3,4)] assms(2) obtain r reqs where
    m1: "m1 = m\<lparr>res := Some r\<rparr>"
    and lg: "log w2 = log w @ CallCreate \<lparr>cmi_Bucket = Bucket m, cmi_Key = path m,
                               cmi_ContentType = DetectContentType env chunk\<rparr>
               # map CallUploadPart reqs"
    by auto
  let ?m = "m1\<lparr>completedParts := completedParts m1 @ [part],
                currentPartNumber := go_int (int_size env) (currentPartNumber m1 + 1)\<rparr>"
  let ?w = "send (Progress (currentPartNumber m1) (int (length chunk))) w2"
  have "res ?m \<noteq> None" using m1 by simp
  from run_loop_no_create[OF continue(5) this] obtain calls where
    "log w' = log ?w @ calls" "created calls = []"
    by blast
  with lg show ?thesis by simp
qed (use assms(3) in simp_all)

lemma run_loop_no_read:
  assumes "run_loop env m tb rd w = ((out, w'), mf)" and "res m = None"
    and "rd = [] \<or> (\<exists>chunk e rest. rd = (chunk, Some e) # rest)
         \<or> (\<exists>chunk rest. rd = (chunk, None) # rest \<and> \<not> int (length chunk) \<le> MaxPartSize m)"
  shows "w' = w"
  using assms
  by (auto simp: finish_def complete_def abort_and_report_def Abort_def split: if_splits)

text \<open>
  C2. The session is requested on the first successfully read chunk of non-zero length,
  with the content type sniffed from the bytes of that chunk (the comment in \<open>run\<close>: "We
  wait until we've read some bytes so we can detect the file type"). The code does
  otherwise when a \<open>Read\<close> returns zero bytes and a nil error: it tests only
  \<open>m.res == nil\<close> after a read without error, never \<open>n\<close>. Here the first read
  returns no byte and the second returns two: the session is requested on the first,
  empty, chunk, with the content type sniffed from no bytes, which is not the type of the
  first chunk of non-zero length, and the empty chunk is uploaded as part 1.
\<close>

theorem session_requested_on_empty_chunk:
  "created (log (snd (Send example_env example_upload [([], None), ([1, 2], None)] ''k'')))
     = [\<lparr>cmi_Bucket = ''b'', cmi_Key = ''k'',
         cmi_ContentType = DetectContentType example_env []\<rparr>]
   \<and> DetectContentType example_env [] \<noteq> DetectContentType example_env [1, 2]
   \<and> part_requests (log (snd (Send example_env example_upload [([], None), ([1, 2], None)] ''k'')))
     = [(1, []), (2, [1, 2])]"
  by (simp add: eval_defs)

text \<open>
  On every reader the code does this. On an upload with a valid configuration and no
  session yet, the session is requested when the first read returns without error,
  whatever the length of the chunk (within the buffer): the request is the first one sent
  to the service, it carries the bucket, the path and the content type sniffed from that
  chunk, and no other session request follows. In every other case (the reader is at end
  of stream from the start, the first read fails, the chunk exceeds the buffer or the
  buffer cannot be made) no request at all is sent: for an input whose first read reports
  end of stream no session is created.
\<close>

theorem session_requested_on_first_read:
  assumes "AccessKey m \<noteq> []" "SecretKey m \<noteq> []" "Bucket m \<noteq> []" and "res m = None"
  shows "case rd of
           (chunk, None) # rest \<Rightarrow>
             if 0 < MaxPartSize (set_defaults m) \<and> MaxPartSize (set_defaults m) \<le> make_limit env
                \<and> int (length chunk) \<le> MaxPartSize (set_defaults m)
             then \<exists>calls. log (snd (Send env m rd p))
                     = CallCreate \<lparr>cmi_Bucket = Bucket m, cmi_Key = p,
                                   cmi_ContentType = DetectContentType env chunk\<rparr> # calls
                   \<and> created calls = []
             else log (snd (Send env m rd p)) = []
         | _ \<Rightarrow> log (snd (Send env m rd p)) = []"
proof (cases rule: Send_cases[of m env rd p])
  case 1
  with assms(1-3) show ?thesis by (simp add: missing_fields_Nil)
next
  case 2
  then have "log (snd (Send env m rd p)) = []" by (simp add: w0_def)
  with 2(2) show ?thesis by (auto split: list.splits option.splits)
next
  case 3
  define mm where "mm = (set_defaults (m\<lparr>reader := rd, path := p\<rparr>))\<lparr>currentPartNumber := 1\<rparr>"
  obtain out w mf where run: "run_loop env mm 0 rd w0 = ((out, w), mf)"
    by (cases "run_loop env mm 0 rd w0") auto
  have S: "snd (Send env m rd p) = w" using 3(4) run by (simp add: mm_def)
  have res: "res mm = None" using assms(4) by (simp add: mm_def)
  have P: "MaxPartSize mm = MaxPartSize (set_defaults m)" by (simp add: mm_def)
  have B: "Bucket mm = Bucket m" "path mm = p" by (simp_all add: mm_def)
  show ?thesis
  proof (cases "\<exists>chunk rest. rd = (chunk, None) # rest \<and> int (length chunk) \<le> MaxPartSize mm")
    case True
    then obtain chunk rest where rd: "rd = (chunk, None) # rest"
      and len: "int (length chunk) \<le> MaxPartSize mm"
      by blast
    from run_loop_first_read[OF run[unfolded rd] res len]
    have "\<exists>calls. log w = CallCreate \<lparr>cmi_Bucket = Bucket m, cmi_Key = p,
                                   cmi_ContentType = DetectContentType env chunk\<rparr> # calls
                   \<and> created calls = []"
      by (simp add: w0_def B)
    with 3(2,3) len show ?thesis unfolding S P by (simp add: rd)
  next
    case False
    then have "rd = [] \<or> (\<exists>chunk e rest. rd = (chunk, Some e) # rest)
         \<or> (\<exists>chunk rest. rd = (chunk, None) # rest \<and> \<not> int (length chunk) \<le> MaxPartSize mm)"
      by (cases rd) (auto split: option.splits)
    from run_loop_no_read[OF run res this] have "w = w0" .
    with False show ?thesis unfolding S P
      by (auto simp: w0_def split: list.splits option.splits)
  qed
qed

theorem session_requested_on_first_read_witness:
  "AccessKey example_upload \<noteq> [] \<and> SecretKey example_upload \<noteq> [] \<and> Bucket example_upload \<noteq> []
   \<and> res example_upload = None
   \<and> log (snd (Send example_env example_upload [([1, 2], None)] ''k''))
     = [CallCreate \<lparr>cmi_Bucket = ''b'', cmi_Key = ''k'',
                    cmi_ContentType = DetectContentType example_env [1, 2]\<rparr>,
        CallUploadPart (part_input example_session [1, 2] 1),
        CallComplete \<lparr>cci_Bucket = Some ''b'', cci_Key = Some ''k'', cci_UploadId = Some ''id'',
                      cci_Parts = [\<lparr>cp_ETag = Some ''etag'', cp_PartNumber = 1\<rparr>]\<rparr>]"
proof -
  have h: "AccessKey example_upload \<noteq> []" "SecretKey example_upload \<noteq> []"
    "Bucket example_upload \<noteq> []" "res example_upload = None"
    by (simp_all add: example_upload_def)
  have ev: "log (snd (Send example_env example_upload [([1, 2], None)] ''k''))
     = [CallCreate \<lparr>cmi_Bucket = ''b'', cmi_Key = ''k'',
                    cmi_ContentType = DetectContentType example_env [1, 2]\<rparr>,
        CallUploadPart (part_input example_session [1, 2] 1),
        CallComplete \<lparr>cci_Bucket = Some ''b'', cci_Key = Some ''k'', cci_UploadId = Some ''id'',
                      cci_Parts = [\<lparr>cp_ETag = Some ''etag'', cp_PartNumber = 1\<rparr>]\<rparr>]"
    by (simp add: eval_defs)
  from session_requested_on_first_read[OF h, where rd = "[([1, 2], None)]"
      and env = example_env and p = "''k''"] h ev
  show ?thesis by blast
qed

section \<open>Parts and reads\<close>

lemma chunks_read_simps [simp]:
  "chunks_read [] = []"
  "chunks_read ((chunk, None) # rd) = chunk # chunks_read rd"
  "chunks_read ((chunk, Some e) # rd) = []"
  by (simp_all add: chunks_read_def)

lemma bytes_with_error_simps [simp]:
  "bytes_with_error [] = []"
  "bytes_with_error ((chunk, None) # rd) = bytes_with_error rd"
  "bytes_with_error ((chunk, Some e) # rd) = chunk"
  by (simp_all add: bytes_with_error_def)











end
